theory Spec2Isabelle
  imports Main "HOL-Library.Sublist"
begin

section \<open>JavaScript values\<close>

text \<open>
  The helpers work on untyped JavaScript values that come out of \<^verbatim>\<open>JSON.parse\<close>.
  A value is \<^verbatim>\<open>undefined\<close>, \<^verbatim>\<open>null\<close>, a boolean, a number, a string, an array or an
  object. Numbers are modelled as integers; an object is the list of its own entries
  (keys pairwise distinct, looked up with \<open>map_of\<close>). Strings are byte strings and
  the case mappings and white space are those of ASCII.
\<close>

datatype js_error = TypeError | InvalidUrl

datatype json =
    JUndef
  | JNull
  | JBool bool
  | JNum int
  | JStr string
  | JArr "json list"
  | JObj "(string \<times> json) list"

text \<open>\<^verbatim>\<open>Boolean(v)\<close>, \<^verbatim>\<open>!v\<close>, \<^verbatim>\<open>v && ...\<close>, \<^verbatim>\<open>v || ...\<close>.\<close>

fun truthy :: "json \<Rightarrow> bool" where
  "truthy JUndef = False"
| "truthy JNull = False"
| "truthy (JBool b) = b"
| "truthy (JNum n) = (n \<noteq> 0)"
| "truthy (JStr s) = (s \<noteq> [])"
| "truthy (JArr xs) = True"
| "truthy (JObj kvs) = True"

text \<open>\<^verbatim>\<open>v == null\<close>: true of \<^verbatim>\<open>null\<close> and \<^verbatim>\<open>undefined\<close> only.\<close>

fun nullish :: "json \<Rightarrow> bool" where
  "nullish JUndef = True"
| "nullish JNull = True"
| "nullish v = False"

text \<open>\<^verbatim>\<open>Array.isArray(v)\<close>, \<^verbatim>\<open>typeof v === 'string'\<close>, \<^verbatim>\<open>typeof v === 'object'\<close>
  (which is also true of \<^verbatim>\<open>null\<close> and of arrays).\<close>

fun isArray :: "json \<Rightarrow> bool" where
  "isArray (JArr xs) = True"
| "isArray v = False"

fun is_string :: "json \<Rightarrow> bool" where
  "is_string (JStr s) = True"
| "is_string v = False"

fun typeof_object :: "json \<Rightarrow> bool" where
  "typeof_object JNull = True"
| "typeof_object (JArr xs) = True"
| "typeof_object (JObj kvs) = True"
| "typeof_object v = False"

text \<open>
  \<^verbatim>\<open>v.k\<close> on a value that is neither \<^verbatim>\<open>null\<close> nor \<^verbatim>\<open>undefined\<close>, for the keys the
  helpers read (none of which is a built-in property of strings, arrays or
  \<^verbatim>\<open>Object.prototype\<close>): the entry of an object, \<^verbatim>\<open>undefined\<close> otherwise.
\<close>

fun get :: "json \<Rightarrow> string \<Rightarrow> json" where
  "get (JObj kvs) k = (case map_of kvs k of Some v \<Rightarrow> v | None \<Rightarrow> JUndef)"
| "get v k = JUndef"

text \<open>An unguarded \<^verbatim>\<open>v.k\<close>: reading a property of \<^verbatim>\<open>null\<close> or \<^verbatim>\<open>undefined\<close> throws.\<close>

definition get_prop :: "json \<Rightarrow> string \<Rightarrow> js_error + json" where
  "get_prop v k = (if nullish v then Inl TypeError else Inr (get v k))"

text \<open>\<^verbatim>\<open>a ?? b\<close>.\<close>

definition nullish_or :: "json \<Rightarrow> json \<Rightarrow> json" where
  "nullish_or a b = (if nullish a then b else a)"

section \<open>Strings\<close>

definition lower_letters :: string where
  "lower_letters = ''abcdefghijklmnopqrstuvwxyz''"

definition upper_letters :: string where
  "upper_letters = ''ABCDEFGHIJKLMNOPQRSTUVWXYZ''"

definition upper_char :: "char \<Rightarrow> char" where
  "upper_char c = (case map_of (zip lower_letters upper_letters) c of Some u \<Rightarrow> u | None \<Rightarrow> c)"

definition lower_char :: "char \<Rightarrow> char" where
  "lower_char c = (case map_of (zip upper_letters lower_letters) c of Some l \<Rightarrow> l | None \<Rightarrow> c)"

definition toUpperCase :: "string \<Rightarrow> string" where
  "toUpperCase s = map upper_char s"

definition toLowerCase :: "string \<Rightarrow> string" where
  "toLowerCase s = map lower_char s"

text \<open>White space of \<^verbatim>\<open>trim()\<close> and of \<^verbatim>\<open>\s\<close>: tab, line feed, vertical tab, form feed,
  carriage return, space.\<close>

definition is_space :: "char \<Rightarrow> bool" where
  "is_space c = (c \<in> set [CHR 0x09, CHR 0x0A, CHR 0x0B, CHR 0x0C, CHR 0x0D, CHR '' ''])"

definition trim :: "string \<Rightarrow> string" where
  "trim s = rev (dropWhile is_space (rev (dropWhile is_space s)))"

text \<open>\<^verbatim>\<open>s.split(c)\<close> for a one-character separator: never the empty list.\<close>

fun split :: "char \<Rightarrow> string \<Rightarrow> string list" where
  "split c [] = [[]]"
| "split c (x # xs) =
     (if x = c then [] # split c xs
      else (case split c xs of [] \<Rightarrow> [[x]] | l # ls \<Rightarrow> (x # l) # ls))"

text \<open>\<^verbatim>\<open>xs.join(sep)\<close> on strings.\<close>

fun join :: "string \<Rightarrow> string list \<Rightarrow> string" where
  "join sep [] = []"
| "join sep [x] = x"
| "join sep (x # y # ys) = x @ sep @ join sep (y # ys)"

text \<open>\<^verbatim>\<open>s.includes(p)\<close>: \<open>p\<close> occurs in \<open>s\<close> as a contiguous substring.\<close>

fun starts_with :: "string \<Rightarrow> string \<Rightarrow> bool" where
  "starts_with s [] = True"
| "starts_with [] (p # ps) = False"
| "starts_with (x # xs) (p # ps) = (x = p \<and> starts_with xs ps)"

fun str_includes :: "string \<Rightarrow> string \<Rightarrow> bool" where
  "str_includes [] p = (p = [])"
| "str_includes (x # xs) p = (starts_with (x # xs) p \<or> str_includes xs p)"


text \<open>Decimal digits of a number, for \<^verbatim>\<open>String(n)\<close> and for the index keys of an array.\<close>

function show_nat :: "nat \<Rightarrow> string" where
  "show_nat n =
     (if n < 10 then [''0123456789'' ! n]
      else show_nat (n div 10) @ [''0123456789'' ! (n mod 10)])"
  by pat_completeness auto
termination
  by (relation "measure id") auto

definition show_int :: "int \<Rightarrow> string" where
  "show_int i = (if i < 0 then CHR ''-'' # show_nat (nat (- i)) else show_nat (nat i))"

text \<open>\<^verbatim>\<open>(x || '').toUpperCase()\<close>: a truthy \<open>x\<close> that is not a string has no such method.\<close>

definition upper_or_empty :: "json \<Rightarrow> js_error + string" where
  "upper_or_empty x =
     (if truthy x then (case x of JStr s \<Rightarrow> Inr (toUpperCase s) | _ \<Rightarrow> Inl TypeError)
      else Inr (toUpperCase []))"

section \<open>RunLocator\<close>

text \<open>
  The \<^verbatim>\<open>URL\<close> class belongs to the platform. Its constructor is a parameter of the model:
  \<open>None\<close> where \<^verbatim>\<open>new URL(s)\<close> throws, and otherwise the parts of the parsed URL that
  \<open>parseRunInfo\<close> reads, with \<^verbatim>\<open>searchParams\<close> as the list of the (decoded) name-value pairs.
\<close>

record parsed_url =
  protocol :: string
  host :: string
  pathname :: string
  searchParams :: "(string \<times> string) list"

type_synonym url_parser = "string \<Rightarrow> parsed_url option"

text \<open>\<^verbatim>\<open>u.searchParams.get(name)\<close>: the value of the first pair of that name, or \<^verbatim>\<open>null\<close>.\<close>

definition searchParams_get :: "parsed_url \<Rightarrow> string \<Rightarrow> string option" where
  "searchParams_get u k = map_of (searchParams u) k"

record runInfo =
  origin :: string
  runId :: "string option"
  outputId :: "string option"
  anonymousKey :: string

text \<open>\<^verbatim>\<open>urlStr.replace(/\/+$/, '')\<close>: the slashes at the end of the string are removed.\<close>

definition strip_trailing_slashes :: "string \<Rightarrow> string" where
  "strip_trailing_slashes s = rev (dropWhile (\<lambda>c. c = CHR ''/'') (rev s))"

text \<open>\<^verbatim>\<open>parts[i]\<close>: \<^verbatim>\<open>undefined\<close> (\<open>None\<close>) outside the array, also at index \<open>-1\<close>.\<close>

definition at :: "'a list \<Rightarrow> int \<Rightarrow> 'a option" where
  "at xs i = (if 0 \<le> i \<and> i < int (length xs) then Some (xs ! nat i) else None)"

text \<open>
  \<^verbatim>\<open>
  let runId, outputId;
  for (let i = 0; i < parts.length; i++) {
      if (parts[i] === 'output' && parts[i - 1] !== 'outputs') {
          runId = parts[i + 1];
          outputId = parts[i + 2];
          break;
      }
  }
  \<close>
  The loop from index \<open>i\<close> on, returning \<open>(runId, outputId)\<close>.
\<close>

function scan_parts :: "string list \<Rightarrow> nat \<Rightarrow> string option \<times> string option" where
  "scan_parts parts i =
     (if i < length parts then
        (if at parts (int i) = Some ''output'' \<and> at parts (int i - 1) \<noteq> Some ''outputs''
         then (at parts (int i + 1), at parts (int i + 2))
         else scan_parts parts (i + 1))
      else (None, None))"
  by pat_completeness auto
termination
  by (relation "measure (\<lambda>(parts, i). length parts - i)") auto

declare scan_parts.simps [simp del]

text \<open>
  \<^verbatim>\<open>
  export function parseRunInfo(urlStr) {
      const u = new URL(urlStr.replace(/\/+$/, '')); // strip trailing slashes
      const parts = u.pathname.split('/').filter(Boolean);
      let runId, outputId;
      for (...) { ... }
      const anonymousKey = u.searchParams.get('anonymousKey') || '';
      return { origin: `${u.protocol}//${u.host}`, runId, outputId, anonymousKey };
  }
  \<close>
\<close>

definition parseRunInfo :: "url_parser \<Rightarrow> string \<Rightarrow> js_error + runInfo" where
  "parseRunInfo URL_new urlStr =
     (case URL_new (strip_trailing_slashes urlStr) of
        None \<Rightarrow> Inl InvalidUrl
      | Some u \<Rightarrow>
          let parts = filter (\<lambda>p. p \<noteq> []) (split CHR ''/'' (pathname u));
              ids = scan_parts parts 0;
              key = (case searchParams_get u ''anonymousKey'' of
                       None \<Rightarrow> []
                     | Some k \<Rightarrow> (if k \<noteq> [] then k else []))
          in Inr \<lparr>origin = protocol u @ ''//'' @ host u, runId = fst ids, outputId = snd ids,
                   anonymousKey = key\<rparr>)"

text \<open>A template literal prints \<^verbatim>\<open>undefined\<close> for a missing value.\<close>

definition template_str :: "string option \<Rightarrow> string" where
  "template_str v = (case v of None \<Rightarrow> ''undefined'' | Some s \<Rightarrow> s)"

text \<open>
  \<^verbatim>\<open>
  export function buildResultBaseUrl(runInfo) {
      return `${runInfo.origin}/result/${runInfo.runId}/${runInfo.outputId}`;
  }
  \<close>
\<close>

definition buildResultBaseUrl :: "runInfo \<Rightarrow> string" where
  "buildResultBaseUrl ri =
     origin ri @ ''/result/'' @ template_str (runId ri) @ ''/'' @ template_str (outputId ri)"

text \<open>
  The specification's reading of the scan: segment \<open>i\<close> marks the address when it is
  \<^verbatim>\<open>output\<close> and the segment before it, if there is one, is not \<^verbatim>\<open>outputs\<close>.
\<close>

definition marks_address :: "string list \<Rightarrow> nat \<Rightarrow> bool" where
  "marks_address parts i = (parts ! i = ''output'' \<and> (i = 0 \<or> parts ! (i - 1) \<noteq> ''outputs''))"

section \<open>ProgressTreeReader\<close>

text \<open>
  \<^verbatim>\<open>JSON.parse\<close> belongs to the platform. It is a parameter of the model: \<open>None\<close> where
  it throws a \<^verbatim>\<open>SyntaxError\<close>, the parsed value otherwise.
\<close>

type_synonym json_parser = "string \<Rightarrow> json option"

text \<open>
  \<^verbatim>\<open>
  export function parseMaybeJson(val) {
      if (typeof val === 'string') {
          try { return JSON.parse(val); } catch { return val; }
      }
      return val;
  }
  \<close>
\<close>

definition parseMaybeJson :: "json_parser \<Rightarrow> json \<Rightarrow> json" where
  "parseMaybeJson JSON_parse val =
     (case val of
        JStr s \<Rightarrow> (case JSON_parse s of Some v \<Rightarrow> v | None \<Rightarrow> val)
      | _ \<Rightarrow> val)"

text \<open>\<^verbatim>\<open>Array.isArray(x) ? x : [x]\<close>, as the list of the elements.\<close>

definition arrayify :: "json \<Rightarrow> json list" where
  "arrayify x = (case x of JArr xs \<Rightarrow> xs | _ \<Rightarrow> [x])"

text \<open>
  \<^verbatim>\<open>
  export function getProgressRoots(progressJson) {
      const roots = [];
      if (!progressJson) return roots;
      const pj = parseMaybeJson(progressJson);
      if (pj && pj.verificationProgress != null) {
          const vp = parseMaybeJson(pj.verificationProgress);
          if (vp) {
              if (vp.rules) return Array.isArray(vp.rules) ? vp.rules : [vp.rules];
              if (Array.isArray(vp)) return vp;
              if (vp.children) return Array.isArray(vp.children) ? vp.children : [vp.children];
          }
      }
      if (pj && pj.rules) return Array.isArray(pj.rules) ? pj.rules : [pj.rules];
      if (Array.isArray(pj)) return pj;
      if (pj && pj.children) return Array.isArray(pj.children) ? pj.children : [pj.children];
      return roots;
  }
  \<close>
  The result is the list of the elements of the returned array. The block guarded by
  \<^verbatim>\<open>pj.verificationProgress != null\<close> either returns (\<open>Some\<close>) or falls through (\<open>None\<close>).
\<close>

definition getProgressRoots :: "json_parser \<Rightarrow> json \<Rightarrow> json list" where
  "getProgressRoots JSON_parse progressJson =
     (if \<not> truthy progressJson then []
      else
        let pj = parseMaybeJson JSON_parse progressJson in
        case (if truthy pj \<and> \<not> nullish (get pj ''verificationProgress'') then
                (let vp = parseMaybeJson JSON_parse (get pj ''verificationProgress'') in
                 if truthy vp then
                   (if truthy (get vp ''rules'') then Some (arrayify (get vp ''rules''))
                    else if isArray vp then Some (arrayify vp)
                    else if truthy (get vp ''children'') then Some (arrayify (get vp ''children''))
                    else None)
                 else None)
              else None) of
          Some r \<Rightarrow> r
        | None \<Rightarrow>
            (if truthy pj \<and> truthy (get pj ''rules'') then arrayify (get pj ''rules'')
             else if isArray pj then arrayify pj
             else if truthy pj \<and> truthy (get pj ''children'') then arrayify (get pj ''children'')
             else []))"

section \<open>RuleFilterWalker\<close>

record opts =
  includeSatisfied :: json
  includeAll :: json
  includeRuleMatch :: json

record ruleHit =
  ruleName :: string
  status :: string
  outputFile :: "string option"
  url :: "string option"
  nodeSnapshot :: "(string \<times> json) list option"

text \<open>
  \<^verbatim>\<open>String(v)\<close>, as a template literal and \<^verbatim>\<open>join\<close> print a value. Inside an array,
  \<^verbatim>\<open>null\<close> and \<^verbatim>\<open>undefined\<close> print as the empty string.
\<close>

fun js_toString :: "json \<Rightarrow> string" where
  "js_toString JUndef = ''undefined''"
| "js_toString JNull = ''null''"
| "js_toString (JBool b) = (if b then ''true'' else ''false'')"
| "js_toString (JNum n) = show_int n"
| "js_toString (JStr s) = s"
| "js_toString (JArr xs) =
     join '','' (map (\<lambda>x. if nullish x then [] else js_toString x) xs)"
| "js_toString (JObj kvs) = ''[object Object]''"

text \<open>\<^verbatim>\<open>path.join(' > ')\<close> on an array of values.\<close>

definition join_path :: "json list \<Rightarrow> string" where
  "join_path path = join '' > '' (map (\<lambda>x. if nullish x then [] else js_toString x) path)"

text \<open>\<^verbatim>\<open>currentPath.concat(name)\<close>: an array argument is spread, any other value is appended.\<close>

definition concat_path :: "json list \<Rightarrow> json \<Rightarrow> json list" where
  "concat_path currentPath name = (case name of JArr xs \<Rightarrow> currentPath @ xs | _ \<Rightarrow> currentPath @ [name])"

text \<open>\<^verbatim>\<open>Array.isArray(v) ? v : []\<close>.\<close>

definition array_or_empty :: "json \<Rightarrow> json list" where
  "array_or_empty v = (case v of JArr xs \<Rightarrow> xs | _ \<Rightarrow> [])"

text \<open>
  \<^verbatim>\<open>
  const name = node.name || '';
  const nextPath = currentPath.concat(name);
  \<close>
\<close>

definition nextPath :: "json list \<Rightarrow> json \<Rightarrow> json list" where
  "nextPath currentPath node =
     concat_path currentPath (if truthy (get node ''name'') then get node ''name'' else JStr [])"

text \<open>
  \<^verbatim>\<open>
  const includeRuleMatch = typeof opts.includeRuleMatch === 'string' && opts.includeRuleMatch.trim()
      ? opts.includeRuleMatch.trim().toLowerCase() : null;
  const rulePathLower = nextPath.join(' > ').toLowerCase();
  const matchesName = includeRuleMatch && rulePathLower.includes(includeRuleMatch);
  \<close>
\<close>

definition ruleMatch :: "opts \<Rightarrow> string option" where
  "ruleMatch opts =
     (case includeRuleMatch opts of
        JStr s \<Rightarrow> (if trim s \<noteq> [] then Some (toLowerCase (trim s)) else None)
      | _ \<Rightarrow> None)"

definition matchesName :: "opts \<Rightarrow> json list \<Rightarrow> bool" where
  "matchesName opts path =
     (case ruleMatch opts of
        None \<Rightarrow> False
      | Some m \<Rightarrow> str_includes (toLowerCase (join_path path)) m)"

text \<open>\<^verbatim>\<open>/\.json$/i.test(outputFile)\<close>.\<close>

definition is_json_file :: "string \<Rightarrow> bool" where
  "is_json_file s = (5 \<le> length s \<and> toLowerCase (drop (length s - 5) s) = ''.json'')"

text \<open>
  \<^verbatim>\<open>URLSearchParams.prototype.toString\<close> belongs to the platform: the
  \<^verbatim>\<open>application/x-www-form-urlencoded\<close> serializer of the URL standard. Letters, digits and
  \<^verbatim>\<open>* - . _\<close> stand for themselves, a space becomes \<^verbatim>\<open>+\<close>, and every other byte becomes
  \<^verbatim>\<open>%\<close> and its two upper-case hexadecimal digits; the pairs are joined by \<^verbatim>\<open>&\<close>.
\<close>

definition form_unreserved :: "char \<Rightarrow> bool" where
  "form_unreserved c = (c \<in> set (lower_letters @ upper_letters @ ''0123456789*-._''))"

definition percent_byte :: "char \<Rightarrow> string" where
  "percent_byte c =
     [CHR ''%'', ''0123456789ABCDEF'' ! (of_char c div 16), ''0123456789ABCDEF'' ! (of_char c mod 16)]"

definition urlencode :: "string \<Rightarrow> string" where
  "urlencode s =
     concat (map (\<lambda>c. if c = CHR '' '' then ''+''
                       else if form_unreserved c then [c]
                       else percent_byte c) s)"

definition params_toString :: "(string \<times> string) list \<Rightarrow> string" where
  "params_toString params = join ''&'' (map (\<lambda>(k, v). urlencode k @ ''='' @ urlencode v) params)"

text \<open>
  The body of the loop over \<^verbatim>\<open>output\<close>, for an entry that is a string ending in \<^verbatim>\<open>.json\<close>:
  \<^verbatim>\<open>
  const baseUrl = `${runInfo.origin}/result/${runInfo.runId}/${runInfo.outputId}`;
  const params = new URLSearchParams();
  if (runInfo.anonymousKey) {
      params.append('anonymousKey', runInfo.anonymousKey);
  }
  params.append('output', outputFile);
  const fullUrl = params.toString() ? `${baseUrl}?${params.toString()}` : baseUrl;
  results.push({ ruleName: nextPath.join(' > '), status: status, outputFile: outputFile, url: fullUrl });
  \<close>
\<close>

definition fullUrl :: "runInfo \<Rightarrow> string \<Rightarrow> string" where
  "fullUrl ri file =
     (let baseUrl = origin ri @ ''/result/'' @ template_str (runId ri) @ ''/''
                      @ template_str (outputId ri);
          params = (if anonymousKey ri \<noteq> [] then [(''anonymousKey'', anonymousKey ri)] else [])
                     @ [(''output'', file)]
      in if params_toString params \<noteq> [] then baseUrl @ ''?'' @ params_toString params
         else baseUrl)"

definition file_hit :: "runInfo \<Rightarrow> json list \<Rightarrow> string \<Rightarrow> string \<Rightarrow> ruleHit" where
  "file_hit ri path st file =
     \<lparr>ruleName = join_path path, status = st, outputFile = Some file,
      url = Some (fullUrl ri file), nodeSnapshot = None\<rparr>"

fun output_hits :: "runInfo \<Rightarrow> json list \<Rightarrow> string \<Rightarrow> json list \<Rightarrow> ruleHit list" where
  "output_hits ri path st [] = []"
| "output_hits ri path st (entry # rest) =
     (case entry of
        JStr f \<Rightarrow> (if is_json_file f then [file_hit ri path st f] else [])
      | _ \<Rightarrow> [])
     @ output_hits ri path st rest"

text \<open>
  The branch of a node with a status and no output:
  \<^verbatim>\<open>
  const snapshotFields = ['message', 'counterExample', 'counterexample', 'trace', 'callTrace',
      'output_type_information', 'contract_call_summaries', 'storage_initial_state',
      'assertions', 'assertMessage', 'treeViewPath', 'variables', 'callResolutionWarnings'];
  const nodeSnapshot = { name: node.name, status };
  for (const field of snapshotFields) {
      if (field in node) nodeSnapshot[field] = node[field];
  }
  results.push({ ruleName: nextPath.join(' > '), status: status, outputFile: null, url: null,
                 nodeSnapshot });
  \<close>
  The branch is reached with a non-empty \<^verbatim>\<open>status\<close> only, so \<^verbatim>\<open>node\<close> is an object there and
  \<^verbatim>\<open>field in node\<close> asks for one of its keys.
\<close>

definition snapshotFields :: "string list" where
  "snapshotFields =
     [''message'', ''counterExample'', ''counterexample'', ''trace'', ''callTrace'',
      ''output_type_information'', ''contract_call_summaries'', ''storage_initial_state'',
      ''assertions'', ''assertMessage'', ''treeViewPath'', ''variables'', ''callResolutionWarnings'']"

definition has_field :: "json \<Rightarrow> string \<Rightarrow> bool" where
  "has_field node field = (case node of JObj kvs \<Rightarrow> field \<in> set (map fst kvs) | _ \<Rightarrow> False)"

definition snapshot_hit :: "json \<Rightarrow> json list \<Rightarrow> string \<Rightarrow> ruleHit" where
  "snapshot_hit node path st =
     \<lparr>ruleName = join_path path, status = st, outputFile = None, url = None,
      nodeSnapshot =
        Some ([(''name'', get node ''name''), (''status'', JStr st)]
              @ map (\<lambda>field. (field, get node field)) (filter (has_field node) snapshotFields))\<rparr>"

text \<open>
  What one call pushes for \<^verbatim>\<open>node\<close> itself, before it goes into the children:
  \<^verbatim>\<open>
  const status = (node.status || '').toUpperCase();
  const output = Array.isArray(node.output) ? node.output : [];
  ...
  if (status && output.length > 0 && (
      matchesName ||
      includeAll ||
      (includeSatisfied && status !== 'VERIFIED') ||
      (!includeSatisfied && (status === 'VIOLATED' || status === 'SANITY_FAILED'))
  )) {
      for (const outputFile of output) { ... }
  } else if (includeSatisfied && status && output.length === 0 && status !== 'VERIFIED') {
      ...
  }
  \<close>
\<close>

definition selected :: "opts \<Rightarrow> json list \<Rightarrow> string \<Rightarrow> json list \<Rightarrow> bool" where
  "selected opts path st output =
     (st \<noteq> [] \<and> 0 < length output
      \<and> (matchesName opts path
          \<or> truthy (includeAll opts)
          \<or> (truthy (includeSatisfied opts) \<and> st \<noteq> ''VERIFIED'')
          \<or> (\<not> truthy (includeSatisfied opts) \<and> (st = ''VIOLATED'' \<or> st = ''SANITY_FAILED''))))"

definition node_hits :: "json \<Rightarrow> runInfo \<Rightarrow> json list \<Rightarrow> opts \<Rightarrow> js_error + ruleHit list" where
  "node_hits node ri currentPath opts =
     (case upper_or_empty (get node ''status'') of
        Inl e \<Rightarrow> Inl e
      | Inr st \<Rightarrow>
          let output = array_or_empty (get node ''output'');
              path = nextPath currentPath node
          in if selected opts path st output then Inr (output_hits ri path st output)
             else if truthy (includeSatisfied opts) \<and> st \<noteq> [] \<and> length output = 0
                     \<and> st \<noteq> ''VERIFIED''
             then Inr [snapshot_hit node path st]
             else Inr [])"

text \<open>
  \<^verbatim>\<open>
  export function collectFailedRuleOutputs(node, runInfo, results = [], currentPath = [], opts = {}) {
      if (!node) return results;
      ...
      for (const child of children) {
          collectFailedRuleOutputs(child, runInfo, results, nextPath, opts);
      }
      return results;
  }
  \<close>
  \<^verbatim>\<open>results\<close> is mutated in place; the model passes it along and returns it. A
  \<^verbatim>\<open>TypeError\<close> ends the whole traversal.
\<close>

function collectFailedRuleOutputs ::
    "json \<Rightarrow> runInfo \<Rightarrow> ruleHit list \<Rightarrow> json list \<Rightarrow> opts \<Rightarrow> js_error + ruleHit list"
  and collect_children ::
    "json list \<Rightarrow> runInfo \<Rightarrow> ruleHit list \<Rightarrow> json list \<Rightarrow> opts \<Rightarrow> js_error + ruleHit list"
where
  "collectFailedRuleOutputs node ri results currentPath opts =
     (if \<not> truthy node then Inr results
      else
        case node_hits node ri currentPath opts of
          Inl e \<Rightarrow> Inl e
        | Inr hits \<Rightarrow>
            collect_children (array_or_empty (get node ''children'')) ri (results @ hits)
              (nextPath currentPath node) opts)"
| "collect_children [] ri results path opts = Inr results"
| "collect_children (child # rest) ri results path opts =
     (case collectFailedRuleOutputs child ri results path opts of
        Inl e \<Rightarrow> Inl e
      | Inr results' \<Rightarrow> collect_children rest ri results' path opts)"
  by pat_completeness auto

text \<open>The children of a node are smaller than the node: the traversal ends.\<close>

termination
proof -
  have entry_size: "map_of kvs k = Some v \<Longrightarrow> size v < size_list (size_prod (\<lambda>_. 0) size) kvs"
    for kvs :: "(string \<times> json) list" and k v
    by (induction kvs) (auto split: if_splits)
  have children_size: "size_list size (array_or_empty (get node ''children'')) \<le> size node"
    for node
  proof (cases node)
    case (JObj kvs)
    show ?thesis
    proof (cases "map_of kvs ''children''")
      case None
      with JObj show ?thesis by (simp add: array_or_empty_def)
    next
      case (Some v)
      from entry_size [OF Some] JObj Some show ?thesis
        by (cases v) (simp_all add: array_or_empty_def)
    qed
  qed (simp_all add: array_or_empty_def)
  show ?thesis
    by (relation "measure (\<lambda>x. case x of
                     Inl (node, ri, results, path, opts) \<Rightarrow> 2 * size node + 1
                   | Inr (cs, ri, results, path, opts) \<Rightarrow> 2 * size_list size cs)")
      (auto simp: children_size le_imp_less_Suc)
qed

declare collectFailedRuleOutputs.simps [simp del]

section \<open>MetadataSummarizer\<close>

record rulesSummary =
  passed :: nat
  failed :: nat
  total :: nat

record jobMetadata =
  jobStatus :: json
  proverTime :: json
  contractName :: json
  specFile :: json
  solcVersion :: json
  proverVersion :: json
  ruleSanity :: json
  rulesSummary :: "rulesSummary option"

text \<open>\<^verbatim>\<open>Object.entries(v)\<close> of an object or an array (whose keys are its indices).\<close>

definition entries :: "json \<Rightarrow> (string \<times> json) list" where
  "entries v =
     (case v of
        JObj kvs \<Rightarrow> kvs
      | JArr xs \<Rightarrow> zip (map show_nat [0 ..< length xs]) xs
      | _ \<Rightarrow> [])"

text \<open>\<^verbatim>\<open>Array.isArray(v) ? v.length : 0\<close>.\<close>

definition array_length :: "json \<Rightarrow> nat" where
  "array_length v = (case v of JArr xs \<Rightarrow> length xs | _ \<Rightarrow> 0)"

text \<open>
  \<^verbatim>\<open>
  Object.entries(val).filter(([k]) => k !== 'SUCCESS')
        .reduce((s, [, v]) => s + (Array.isArray(v) ? v.length : 0), 0)
  \<close>
\<close>

definition failCount :: "json \<Rightarrow> nat" where
  "failCount val =
     foldl (\<lambda>s (k, v). s + array_length v) 0
       (filter (\<lambda>(k, v). k \<noteq> ''SUCCESS'') (entries val))"

text \<open>
  The body of the loop over the entries of a keyed \<^verbatim>\<open>rules\<close>, on the counters
  \<open>(passed, failed)\<close>:
  \<^verbatim>\<open>
  if (typeof val === 'string') {
      if (val === 'SUCCESS') passed++; else failed++;
  } else if (typeof val === 'object') {
      const successCount = Array.isArray(val.SUCCESS) ? val.SUCCESS.length : 0;
      const failCount = ...;
      if (failCount === 0) passed++; else failed++;
  }
  \<close>
  \<^verbatim>\<open>typeof null\<close> is \<^verbatim>\<open>'object'\<close>, and \<^verbatim>\<open>val.SUCCESS\<close> throws on \<^verbatim>\<open>null\<close>.
\<close>

definition count_entry :: "json \<Rightarrow> nat \<times> nat \<Rightarrow> js_error + nat \<times> nat" where
  "count_entry val pf =
     (case pf of (p, f) \<Rightarrow>
        (case val of
           JStr s \<Rightarrow> (if s = ''SUCCESS'' then Inr (p + 1, f) else Inr (p, f + 1))
         | _ \<Rightarrow>
            (if typeof_object val then
               (case get_prop val ''SUCCESS'' of
                  Inl e \<Rightarrow> Inl e
                | Inr success \<Rightarrow>
                    (if failCount val = 0 then Inr (p + 1, f) else Inr (p, f + 1)))
             else Inr (p, f))))"

fun count_entries :: "(string \<times> json) list \<Rightarrow> nat \<times> nat \<Rightarrow> js_error + nat \<times> nat" where
  "count_entries [] pf = Inr pf"
| "count_entries ((key, val) # rest) pf =
     (case count_entry val pf of Inl e \<Rightarrow> Inl e | Inr pf' \<Rightarrow> count_entries rest pf')"

text \<open>
  The body of the loop over a sequence \<^verbatim>\<open>rules\<close>:
  \<^verbatim>\<open>
  const s = (r.status || '').toUpperCase();
  if (s === 'VERIFIED' || s === 'SUCCESS') passed++; else failed++;
  \<close>
\<close>

definition count_element :: "json \<Rightarrow> nat \<times> nat \<Rightarrow> js_error + nat \<times> nat" where
  "count_element r pf =
     (case pf of (p, f) \<Rightarrow>
        (case get_prop r ''status'' of
           Inl e \<Rightarrow> Inl e
         | Inr st \<Rightarrow>
            (case upper_or_empty st of
               Inl e \<Rightarrow> Inl e
             | Inr s \<Rightarrow>
                (if s = ''VERIFIED'' \<or> s = ''SUCCESS'' then Inr (p + 1, f) else Inr (p, f + 1)))))"

fun count_elements :: "json list \<Rightarrow> nat \<times> nat \<Rightarrow> js_error + nat \<times> nat" where
  "count_elements [] pf = Inr pf"
| "count_elements (r # rest) pf =
     (case count_element r pf of Inl e \<Rightarrow> Inl e | Inr pf' \<Rightarrow> count_elements rest pf')"

text \<open>
  The block \<^verbatim>\<open>if (data.rules) { ... }\<close>: \<open>None\<close> when \<^verbatim>\<open>data.rules\<close> is falsy, so that
  \<^verbatim>\<open>rulesSummary\<close> stays \<^verbatim>\<open>null\<close>.
\<close>

definition count_rules :: "json \<Rightarrow> js_error + rulesSummary option" where
  "count_rules rules =
     (if truthy rules then
        (case (if typeof_object rules \<and> \<not> isArray rules then count_entries (entries rules) (0, 0)
               else if isArray rules then count_elements (arrayify rules) (0, 0)
               else Inr (0, 0)) of
           Inl e \<Rightarrow> Inl e
         | Inr (p, f) \<Rightarrow> Inr (Some \<lparr>passed = p, failed = f, total = p + f\<rparr>))
      else Inr None)"

text \<open>
  \<^verbatim>\<open>
  export function parseJobMetadata(data) {
      if (!data || typeof data !== 'object') return null;
      const meta = { jobStatus: data.jobStatus ?? null, ..., ruleSanity: null, rulesSummary: null };
      if (data.conf && typeof data.conf === 'object') {
          meta.ruleSanity = data.conf.rule_sanity ?? data.conf.ruleSanity ?? null;
      }
      if (data.rules) { ... meta.rulesSummary = { passed, failed, total: passed + failed }; }
      return meta;
  }
  \<close>
  \<open>Inr None\<close> is the result \<^verbatim>\<open>null\<close>.
\<close>

definition parseJobMetadata :: "json \<Rightarrow> js_error + jobMetadata option" where
  "parseJobMetadata data =
     (if \<not> truthy data then Inr None
      else if \<not> typeof_object data then Inr None
      else
        let conf = get data ''conf'';
            sanity =
              (if truthy conf \<and> typeof_object conf then
                 nullish_or (get conf ''rule_sanity'') (nullish_or (get conf ''ruleSanity'') JNull)
               else JNull)
        in
        case count_rules (get data ''rules'') of
          Inl e \<Rightarrow> Inl e
        | Inr summary \<Rightarrow>
            Inr (Some \<lparr>jobStatus = nullish_or (get data ''jobStatus'') JNull,
                       proverTime = nullish_or (get data ''proverTime'') JNull,
                       contractName = nullish_or (get data ''contractName'') JNull,
                       specFile = nullish_or (get data ''specFile'') JNull,
                       solcVersion = nullish_or (get data ''solcVersion'') JNull,
                       proverVersion = nullish_or (get data ''proverVersion'') JNull,
                       ruleSanity = sanity,
                       rulesSummary = summary\<rparr>))"

section \<open>TranscriptAnswerExtractor\<close>










text \<open>
  A loop \<^verbatim>\<open>for (let i = n - 1; i >= 0; i--) { if (P(lines[i])) { s = i; break; } }\<close> on
  \<^verbatim>\<open>s = -1\<close>: the last index below \<open>n\<close> whose line satisfies \<open>P\<close>, or \<open>-1\<close>.
\<close>

fun find_back :: "(string \<Rightarrow> bool) \<Rightarrow> string list \<Rightarrow> nat \<Rightarrow> int" where
  "find_back P lines 0 = - 1"
| "find_back P lines (Suc i) = (if P (lines ! i) then int i else find_back P lines i)"










section \<open>Example inputs\<close>

definition example_rules :: json where
  "example_rules =
     JObj [(''a'', JStr ''SUCCESS''),
           (''b'', JObj [(''SUCCESS'', JArr [JNum 1]), (''VIOLATED'', JArr [JNum 2, JNum 3])]),
           (''c'', JStr ''VIOLATED'')]"

definition JSON_parse_example :: json_parser where
  "JSON_parse_example s =
     (if s = ''[7]'' then Some (JArr [JNum 7])
      else if s = ''null'' then Some JNull
      else None)"

text \<open>What \<^verbatim>\<open>new URL\<close> returns on four plain addresses (it throws on a string that is no URL).\<close>

definition URL_example :: url_parser where
  "URL_example s =
     (if s = ''https://prover.certora.com/output/12345/abcdef?anonymousKey=k'' then
        Some \<lparr>protocol = ''https:'', host = ''prover.certora.com'',
               pathname = ''/output/12345/abcdef'', searchParams = [(''anonymousKey'', ''k'')]\<rparr>
      else if s = ''https://prover.certora.com/output/12345/abcdef?anonymousKey=k/'' then
        Some \<lparr>protocol = ''https:'', host = ''prover.certora.com'',
               pathname = ''/output/12345/abcdef'', searchParams = [(''anonymousKey'', ''k/'')]\<rparr>
      else if s = ''https://prover.certora.com/outputs/output/7/output/8'' then
        Some \<lparr>protocol = ''https:'', host = ''prover.certora.com'',
               pathname = ''/outputs/output/7/output/8'', searchParams = []\<rparr>
      else if s = ''https://prover.certora.com/jobs/output'' then
        Some \<lparr>protocol = ''https:'', host = ''prover.certora.com'',
               pathname = ''/jobs/output'', searchParams = []\<rparr>
      else None)"




text \<open>A run address, with and without a key, and a status tree of a group and three rules.\<close>

definition example_run :: runInfo where
  "example_run =
     \<lparr>origin = ''https://prover.certora.com'', runId = Some ''111'', outputId = Some ''aaa'',
      anonymousKey = ''key1''\<rparr>"


definition default_opts :: opts where
  "default_opts = \<lparr>includeSatisfied = JUndef, includeAll = JUndef, includeRuleMatch = JUndef\<rparr>"


text \<open>A rule node with the four fields the walker reads.\<close>

definition rule_node :: "string \<Rightarrow> string \<Rightarrow> json list \<Rightarrow> json list \<Rightarrow> json" where
  "rule_node name st output children =
     JObj [(''name'', JStr name), (''status'', JStr st), (''output'', JArr output),
           (''children'', JArr children)]"

section \<open>Properties of the RunLocator\<close>

lemma strip_trailing_slashes_replicate:
  "strip_trailing_slashes (s @ replicate n CHR ''/'') = strip_trailing_slashes s"
  by (simp add: strip_trailing_slashes_def dropWhile_append)

lemma strip_trailing_slashes_append:
  assumes "a \<noteq> []" "last a \<noteq> CHR ''/''"
  shows "strip_trailing_slashes (a @ b) = a @ strip_trailing_slashes b"
proof -
  from assms have "dropWhile (\<lambda>c. c = CHR ''/'') (rev a) = rev a"
    by (cases a rule: rev_cases) simp_all
  then show ?thesis
    by (simp add: strip_trailing_slashes_def dropWhile_append)
qed

lemma at_nat: "at xs (int i) = (if i < length xs then Some (xs ! i) else None)"
  by (simp add: at_def)

lemma at_pred:
  "at xs (int i - 1) = (if i = 0 \<or> length xs < i then None else Some (xs ! (i - 1)))"
  by (cases i) (auto simp: at_def nat_diff_distrib')

lemma scan_test_marks:
  "i < length parts \<Longrightarrow>
   (at parts (int i) = Some ''output'' \<and> at parts (int i - 1) \<noteq> Some ''outputs'')
     = marks_address parts i"
  by (simp add: at_nat at_pred marks_address_def)

lemma scan_parts_hit:
  "i < length parts \<Longrightarrow> marks_address parts i \<Longrightarrow>
   scan_parts parts i = (at parts (int i + 1), at parts (int i + 2))"
  by (subst scan_parts.simps) (simp add: scan_test_marks)

lemma scan_parts_skip:
  "i < length parts \<Longrightarrow> \<not> marks_address parts i \<Longrightarrow>
   scan_parts parts i = scan_parts parts (i + 1)"
  by (subst scan_parts.simps) (simp add: scan_test_marks)

lemma scan_parts_end: "\<not> i < length parts \<Longrightarrow> scan_parts parts i = (None, None)"
  by (subst scan_parts.simps) simp

lemma scan_parts_first:
  assumes "i < length parts" "marks_address parts i"
    and "\<forall>j. k \<le> j \<and> j < i \<longrightarrow> \<not> marks_address parts j" "k \<le> i"
  shows "scan_parts parts k = (at parts (int i + 1), at parts (int i + 2))"
  using assms
proof (induction "i - k" arbitrary: k)
  case 0
  then have "k = i" by simp
  with 0 show ?case by (simp add: scan_parts_hit)
next
  case (Suc d)
  then have lt: "k < i" by simp
  with Suc.prems have nm: "\<not> marks_address parts k" by simp
  from lt Suc.prems have kl: "k < length parts" by simp
  have "scan_parts parts (k + 1) = (at parts (int i + 1), at parts (int i + 2))"
    using Suc.hyps(1) [of "k + 1"] Suc.hyps(2) Suc.prems lt by simp
  with nm kl show ?case by (simp add: scan_parts_skip)
qed

lemma scan_parts_none:
  "\<forall>j. k \<le> j \<and> j < length parts \<longrightarrow> \<not> marks_address parts j \<Longrightarrow>
   scan_parts parts k = (None, None)"
proof (induction "length parts - k" arbitrary: k)
  case 0
  then show ?case by (simp add: scan_parts_end)
next
  case (Suc d)
  then have kl: "k < length parts" by simp
  with Suc.prems have nm: "\<not> marks_address parts k" by simp
  have "scan_parts parts (k + 1) = (None, None)"
    using Suc.hyps(1) [of "k + 1"] Suc.hyps(2) Suc.prems by simp
  with nm kl show ?case by (simp add: scan_parts_skip)
qed

lemma split_no_sep: "c \<notin> set a \<Longrightarrow> split c a = [a]"
  by (induction a) auto

lemma split_append_sep: "c \<notin> set a \<Longrightarrow> split c (a @ c # b) = a # split c b"
  by (induction a) auto

lemma output_path_parts:
  assumes "rid \<noteq> []" "oid \<noteq> []" "CHR ''/'' \<notin> set rid" "CHR ''/'' \<notin> set oid"
  shows "filter (\<lambda>p. p \<noteq> []) (split CHR ''/'' (''/output/'' @ rid @ ''/'' @ oid)) = [''output'', rid, oid]"
proof -
  have e: "''/output/'' @ rid @ ''/'' @ oid
           = [] @ CHR ''/'' # (''output'' @ CHR ''/'' # (rid @ CHR ''/'' # oid))"
    by simp
  have s3: "split CHR ''/'' (rid @ CHR ''/'' # oid) = [rid, oid]"
    using assms(3,4) by (simp add: split_append_sep split_no_sep del: split.simps)
  have s2: "split CHR ''/'' (''output'' @ CHR ''/'' # (rid @ CHR ''/'' # oid)) = [''output'', rid, oid]"
    by (subst split_append_sep) (simp_all only: s3, simp)
  have s1: "split CHR ''/'' ([] @ CHR ''/'' # (''output'' @ CHR ''/'' # (rid @ CHR ''/'' # oid)))
            = [[], ''output'', rid, oid]"
    by (subst split_append_sep) (simp_all only: s2, simp)
  show ?thesis
    unfolding e s1 using assms(1,2) by simp
qed

lemma parseRunInfo_at_mark:
  assumes "URL_new (strip_trailing_slashes s) = Some u"
    and "parts = filter (\<lambda>p. p \<noteq> []) (split CHR ''/'' (pathname u))"
    and "i < length parts" "marks_address parts i" "\<forall>j<i. \<not> marks_address parts j"
  shows "parseRunInfo URL_new s =
           Inr \<lparr>origin = protocol u @ ''//'' @ host u,
                runId = at parts (int i + 1), outputId = at parts (int i + 2),
                anonymousKey = (case searchParams_get u ''anonymousKey'' of None \<Rightarrow> [] | Some k \<Rightarrow> k)\<rparr>"
proof -
  have "scan_parts parts 0 = (at parts (int i + 1), at parts (int i + 2))"
    using assms(3-5) by (intro scan_parts_first) simp_all
  with assms(1,2) show ?thesis
    by (simp add: parseRunInfo_def Let_def split: option.splits)
qed

lemma parseRunInfo_no_mark:
  assumes "URL_new (strip_trailing_slashes s) = Some u"
    and "parts = filter (\<lambda>p. p \<noteq> []) (split CHR ''/'' (pathname u))"
    and "\<forall>j<length parts. \<not> marks_address parts j"
  shows "parseRunInfo URL_new s =
           Inr \<lparr>origin = protocol u @ ''//'' @ host u, runId = None, outputId = None,
                anonymousKey = (case searchParams_get u ''anonymousKey'' of None \<Rightarrow> [] | Some k \<Rightarrow> k)\<rparr>"
proof -
  have "scan_parts parts 0 = (None, None)"
    using assms(3) by (intro scan_parts_none) simp
  with assms(1,2) show ?thesis
    by (simp add: parseRunInfo_def Let_def split: option.splits)
qed

lemma parseRunInfo_output_form:
  assumes "URL_new (''https://'' @ h @ ''/output/'' @ rid @ ''/'' @ oid @ ''?anonymousKey=''
                     @ strip_trailing_slashes K)
           = Some \<lparr>protocol = ''https:'', host = h, pathname = ''/output/'' @ rid @ ''/'' @ oid,
                   searchParams = [(''anonymousKey'', strip_trailing_slashes K)]\<rparr>"
    and "rid \<noteq> []" "oid \<noteq> []" "CHR ''/'' \<notin> set rid" "CHR ''/'' \<notin> set oid"
  shows "parseRunInfo URL_new
           (''https://'' @ h @ ''/output/'' @ rid @ ''/'' @ oid @ ''?anonymousKey='' @ K
              @ replicate n CHR ''/'')
         = Inr \<lparr>origin = ''https://'' @ h, runId = Some rid, outputId = Some oid,
                anonymousKey = strip_trailing_slashes K\<rparr>"
proof -
  let ?pre = "''https://'' @ h @ ''/output/'' @ rid @ ''/'' @ oid @ ''?anonymousKey=''"
  let ?u = "\<lparr>protocol = ''https:'', host = h, pathname = ''/output/'' @ rid @ ''/'' @ oid,
              searchParams = [(''anonymousKey'', strip_trailing_slashes K)]\<rparr>"
  let ?parts = "[''output'', rid, oid]"
  have "strip_trailing_slashes (?pre @ (K @ replicate n CHR ''/''))
        = ?pre @ strip_trailing_slashes (K @ replicate n CHR ''/'')"
    by (rule strip_trailing_slashes_append) simp_all
  then have s: "strip_trailing_slashes (?pre @ K @ replicate n CHR ''/'')
        = ?pre @ strip_trailing_slashes K"
    by (simp add: strip_trailing_slashes_replicate)
  have p: "?parts = filter (\<lambda>p. p \<noteq> []) (split CHR ''/'' (pathname ?u))"
    using output_path_parts [OF assms(2-5)] by simp
  have u: "URL_new (strip_trailing_slashes (?pre @ K @ replicate n CHR ''/'')) = Some ?u"
    using assms(1) s by simp
  have "parseRunInfo URL_new (?pre @ K @ replicate n CHR ''/'') =
           Inr \<lparr>origin = protocol ?u @ ''//'' @ host ?u,
                runId = at ?parts (int 0 + 1), outputId = at ?parts (int 0 + 2),
                anonymousKey = (case searchParams_get ?u ''anonymousKey'' of None \<Rightarrow> [] | Some k \<Rightarrow> k)\<rparr>"
    using u p by (intro parseRunInfo_at_mark [where i = 0 and u = "?u" and parts = "?parts"]) (simp_all add: marks_address_def)
  then show ?thesis
    by (simp add: at_def searchParams_get_def)
qed

lemma parseRunInfo_replicate:
  "parseRunInfo URL_new (s @ replicate n CHR ''/'') = parseRunInfo URL_new s"
  by (simp add: parseRunInfo_def strip_trailing_slashes_replicate)

lemma parseRunInfo_short:
  assumes "URL_new (strip_trailing_slashes s) = Some u"
    and "parts = filter (\<lambda>p. p \<noteq> []) (split CHR ''/'' (pathname u))"
    and "i < length parts" "marks_address parts i" "\<forall>j<i. \<not> marks_address parts j"
    and "length parts \<le> i + 1"
  shows "\<exists>ri. parseRunInfo URL_new s = Inr ri \<and> runId ri = None \<and> outputId ri = None"
  using parseRunInfo_at_mark [of URL_new s u parts i] assms by (simp add: at_def)

text \<open>
  Claim C2, as the code has it. Slashes appended to the URL string do not change the result
  of \<open>parseRunInfo\<close>. When the platform parses the stripped string, the segment that marks the
  address is the first path segment equal to \<^verbatim>\<open>output\<close> whose preceding segment is not
  \<^verbatim>\<open>outputs\<close>: \<^verbatim>\<open>runId\<close> and \<^verbatim>\<open>outputId\<close> are the next two segments, each \<^verbatim>\<open>undefined\<close>
  when the path is too short, and both \<^verbatim>\<open>undefined\<close> when no segment marks the address;
  none of this is an error. \<^verbatim>\<open>origin\<close> is the protocol, \<^verbatim>\<open>//\<close> and the host. For a URL
  \<^verbatim>\<open>https://host/output/<R>/<O>?anonymousKey=<K>\<close>, with any number of slashes appended, that
  the platform reads as such once the slashes at its end are stripped, the result has
  \<^verbatim>\<open>runId\<close> \<open>R\<close>, \<^verbatim>\<open>outputId\<close> \<open>O\<close>, and as \<^verbatim>\<open>anonymousKey\<close> the key \<open>K\<close> without the
  slashes at its end (\<open>K\<close> itself when it does not end in a slash).
\<close>

theorem parseRunInfo_locates:
  "parseRunInfo URL_new (s @ replicate n CHR ''/'') = parseRunInfo URL_new s
   \<and> (URL_new (strip_trailing_slashes s) = Some u
        \<and> parts = filter (\<lambda>p. p \<noteq> []) (split CHR ''/'' (pathname u))
        \<and> i < length parts \<and> marks_address parts i \<and> (\<forall>j<i. \<not> marks_address parts j)
      \<longrightarrow> parseRunInfo URL_new s =
            Inr \<lparr>origin = protocol u @ ''//'' @ host u,
                 runId = at parts (int i + 1), outputId = at parts (int i + 2),
                 anonymousKey =
                   (case searchParams_get u ''anonymousKey'' of None \<Rightarrow> [] | Some k \<Rightarrow> k)\<rparr>)
   \<and> (URL_new (strip_trailing_slashes s) = Some u
        \<and> parts = filter (\<lambda>p. p \<noteq> []) (split CHR ''/'' (pathname u))
        \<and> i < length parts \<and> marks_address parts i \<and> (\<forall>j<i. \<not> marks_address parts j)
        \<and> length parts \<le> i + 1
      \<longrightarrow> (\<exists>ri. parseRunInfo URL_new s = Inr ri \<and> runId ri = None \<and> outputId ri = None))
   \<and> (URL_new (strip_trailing_slashes s) = Some u
        \<and> parts = filter (\<lambda>p. p \<noteq> []) (split CHR ''/'' (pathname u))
        \<and> (\<forall>j<length parts. \<not> marks_address parts j)
      \<longrightarrow> parseRunInfo URL_new s =
            Inr \<lparr>origin = protocol u @ ''//'' @ host u, runId = None, outputId = None,
                 anonymousKey =
                   (case searchParams_get u ''anonymousKey'' of None \<Rightarrow> [] | Some k \<Rightarrow> k)\<rparr>)
   \<and> (URL_new (''https://'' @ h @ ''/output/'' @ rid @ ''/'' @ oid @ ''?anonymousKey=''
                  @ strip_trailing_slashes K)
          = Some \<lparr>protocol = ''https:'', host = h, pathname = ''/output/'' @ rid @ ''/'' @ oid,
                  searchParams = [(''anonymousKey'', strip_trailing_slashes K)]\<rparr>
        \<and> rid \<noteq> [] \<and> oid \<noteq> [] \<and> CHR ''/'' \<notin> set rid \<and> CHR ''/'' \<notin> set oid
      \<longrightarrow> parseRunInfo URL_new
             (''https://'' @ h @ ''/output/'' @ rid @ ''/'' @ oid @ ''?anonymousKey='' @ K
                @ replicate n CHR ''/'')
           = Inr \<lparr>origin = ''https://'' @ h, runId = Some rid, outputId = Some oid,
                  anonymousKey = strip_trailing_slashes K\<rparr>)"
proof -
  have a: "parseRunInfo URL_new (s @ replicate n CHR ''/'') = parseRunInfo URL_new s"
    by (rule parseRunInfo_replicate)
  note b = parseRunInfo_at_mark [of URL_new s u parts i]
  note c = parseRunInfo_short [of URL_new s u parts i]
  note d = parseRunInfo_no_mark [of URL_new s u parts]
  note e = parseRunInfo_output_form [of URL_new h rid oid K n]
  show ?thesis
    apply (intro conjI impI)
        apply (rule a)
       apply (elim conjE, erule (4) b)
      apply (elim conjE, erule (5) c)
     apply (elim conjE, erule (2) d)
    apply (elim conjE, erule (4) e)
    done
qed

text \<open>
  A standard address with three slashes appended, an address whose first \<^verbatim>\<open>output\<close> follows
  \<^verbatim>\<open>outputs\<close> and whose second one is followed by a single segment, and a short path.
\<close>

theorem parseRunInfo_locates_witness:
  "parseRunInfo URL_example ''https://prover.certora.com/output/12345/abcdef?anonymousKey=k///''
     = Inr \<lparr>origin = ''https://prover.certora.com'', runId = Some ''12345'',
            outputId = Some ''abcdef'', anonymousKey = ''k''\<rparr>
   \<and> parseRunInfo URL_example ''https://prover.certora.com/outputs/output/7/output/8''
     = Inr \<lparr>origin = ''https://prover.certora.com'', runId = Some ''8'',
            outputId = None, anonymousKey = []\<rparr>
   \<and> parseRunInfo URL_example ''https://prover.certora.com/jobs/output//''
     = parseRunInfo URL_example ''https://prover.certora.com/jobs/output''"
proof -
  let ?u = "\<lparr>protocol = ''https:'', host = ''prover.certora.com'',
              pathname = ''/outputs/output/7/output/8'', searchParams = []\<rparr>"
  let ?parts = "[''outputs'', ''output'', ''7'', ''output'', ''8'']"
  have a: "parseRunInfo URL_example
             (''https://'' @ ''prover.certora.com'' @ ''/output/'' @ ''12345'' @ ''/'' @ ''abcdef''
                @ ''?anonymousKey='' @ ''k'' @ replicate 3 CHR ''/'')
           = Inr \<lparr>origin = ''https://'' @ ''prover.certora.com'', runId = Some ''12345'',
                  outputId = Some ''abcdef'', anonymousKey = strip_trailing_slashes ''k''\<rparr>"
    using parseRunInfo_locates
      [where URL_new = URL_example and h = "''prover.certora.com''" and rid = "''12345''"
         and oid = "''abcdef''" and K = "''k''" and n = 3]
    by (simp add: URL_example_def strip_trailing_slashes_def)
  have nm: "\<forall>j<3. \<not> marks_address ?parts j"
    by (simp add: marks_address_def All_less_Suc numeral_3_eq_3)
  have b: "parseRunInfo URL_example ''https://prover.certora.com/outputs/output/7/output/8''
           = Inr \<lparr>origin = protocol ?u @ ''//'' @ host ?u,
                  runId = at ?parts (int 3 + 1), outputId = at ?parts (int 3 + 2),
                  anonymousKey =
                    (case searchParams_get ?u ''anonymousKey'' of None \<Rightarrow> [] | Some k \<Rightarrow> k)\<rparr>"
    using nm parseRunInfo_locates
      [where URL_new = URL_example and u = "?u" and parts = "?parts" and i = 3
         and s = "''https://prover.certora.com/outputs/output/7/output/8''"]
    by (simp add: URL_example_def strip_trailing_slashes_def marks_address_def)
  have c: "parseRunInfo URL_example (''https://prover.certora.com/jobs/output'' @ replicate 2 CHR ''/'')
           = parseRunInfo URL_example ''https://prover.certora.com/jobs/output''"
    using parseRunInfo_locates [where URL_new = URL_example and n = 2
         and s = "''https://prover.certora.com/jobs/output''"]
    by blast
  from a b c show ?thesis
    by (simp add: strip_trailing_slashes_def at_def searchParams_get_def numeral_2_eq_2 numeral_3_eq_3)
qed

text \<open>
  The key of \<^verbatim>\<open>https://prover.certora.com/output/12345/abcdef?anonymousKey=k/\<close> is \<^verbatim>\<open>k/\<close>,
  and the result does not carry it: the slash is stripped with the end of the string.
\<close>

theorem parseRunInfo_key_counterexample:
  "\<not> (\<exists>ri. parseRunInfo URL_example
               ''https://prover.certora.com/output/12345/abcdef?anonymousKey=k/'' = Inr ri
            \<and> runId ri = Some ''12345'' \<and> outputId ri = Some ''abcdef''
            \<and> anonymousKey ri = ''k/'')"
proof -
  have "parseRunInfo URL_example
          (''https://'' @ ''prover.certora.com'' @ ''/output/'' @ ''12345'' @ ''/'' @ ''abcdef''
             @ ''?anonymousKey='' @ ''k/'' @ replicate 0 CHR ''/'')
        = Inr \<lparr>origin = ''https://'' @ ''prover.certora.com'', runId = Some ''12345'',
               outputId = Some ''abcdef'', anonymousKey = strip_trailing_slashes ''k/''\<rparr>"
    by (rule parseRunInfo_output_form) (simp_all add: URL_example_def strip_trailing_slashes_def)
  then show ?thesis
    by (simp add: strip_trailing_slashes_def)
qed

text \<open>\<open>parseRunInfo\<close> raises exactly when the platform rejects the stripped string.\<close>

lemma parseRunInfo_raises:
  "(parseRunInfo URL_new s = Inl e) = (e = InvalidUrl \<and> URL_new (strip_trailing_slashes s) = None)"
  by (auto simp: parseRunInfo_def Let_def split: option.splits)

section \<open>Properties of the RuleFilterWalker\<close>

lemma collect_extends:
  assumes Q: "\<And>node ri path opts hits.
                node_hits node ri path opts = Inr hits \<Longrightarrow> \<forall>h\<in>set hits. Q ri opts h"
  shows "collectFailedRuleOutputs node ri results path opts = Inr out \<Longrightarrow>
           \<exists>new. out = results @ new \<and> (\<forall>h\<in>set new. Q ri opts h)"
    and "collect_children cs ri results path opts = Inr out \<Longrightarrow>
           \<exists>new. out = results @ new \<and> (\<forall>h\<in>set new. Q ri opts h)"
proof (induction node ri results path opts and cs ri results path opts arbitrary: out and out
       rule: collectFailedRuleOutputs_collect_children.induct)
  case (1 node ri results currentPath opts)
  show ?case
  proof (cases "truthy node")
    case False
    with 1(2) show ?thesis by (simp add: collectFailedRuleOutputs.simps)
  next
    case True
    with 1(2) obtain hits where nh: "node_hits node ri currentPath opts = Inr hits"
      and cc: "collect_children (array_or_empty (get node ''children'')) ri (results @ hits)
                 (nextPath currentPath node) opts = Inr out"
      by (auto simp: collectFailedRuleOutputs.simps split: sum.splits)
    from 1(1) [OF _ nh cc] True obtain new where "out = (results @ hits) @ new" "\<forall>h\<in>set new. Q ri opts h"
      by auto
    moreover from Q [OF nh] have "\<forall>h\<in>set hits. Q ri opts h" .
    ultimately have "out = results @ (hits @ new) \<and> (\<forall>h\<in>set (hits @ new). Q ri opts h)"
      by auto
    then show ?thesis by blast
  qed
next
  case (2 ri results path opts)
  then show ?case by simp
next
  case (3 child rest ri results path opts)
  from 3(3) obtain mid where c: "collectFailedRuleOutputs child ri results path opts = Inr mid"
    and r: "collect_children rest ri mid path opts = Inr out"
    by (auto split: sum.splits)
  from 3(1) [OF c] obtain n1 where n1: "mid = results @ n1" "\<forall>h\<in>set n1. Q ri opts h" by blast
  from 3(2) [OF c r] obtain n2 where n2: "out = mid @ n2" "\<forall>h\<in>set n2. Q ri opts h" by blast
  from n1 n2 have "out = results @ (n1 @ n2) \<and> (\<forall>h\<in>set (n1 @ n2). Q ri opts h)" by auto
  then show ?case by blast
qed

lemma urlencode_unreserved: "\<forall>c\<in>set s. form_unreserved c \<Longrightarrow> urlencode s = s"
proof (induction s)
  case Nil
  show ?case by (simp add: urlencode_def)
next
  case (Cons c s)
  have "\<not> form_unreserved CHR '' ''" by code_simp
  with Cons show ?case by (auto simp: urlencode_def)
qed

lemma urlencode_names: "urlencode ''anonymousKey'' = ''anonymousKey''" "urlencode ''output'' = ''output''"
  by code_simp+

lemma fullUrl_form:
  "fullUrl ri f =
     origin ri @ ''/result/'' @ template_str (runId ri) @ ''/'' @ template_str (outputId ri)
       @ ''?'' @ (if anonymousKey ri = [] then [] else ''anonymousKey='' @ urlencode (anonymousKey ri) @ ''&'')
       @ ''output='' @ urlencode f"
  by (simp add: fullUrl_def params_toString_def urlencode_names Let_def)

lemma output_hits_url:
  "h \<in> set (output_hits ri path st out) \<Longrightarrow>
   \<exists>f. outputFile h = Some f \<and> url h = Some (fullUrl ri f) \<and> nodeSnapshot h = None"
  by (induction out) (auto simp: file_hit_def split: json.splits if_splits)

lemma node_hits_url:
  assumes "node_hits node ri path opts = Inr hits" "h \<in> set hits"
  shows "(url h = None \<and> outputFile h = None)
         \<or> (\<exists>f. outputFile h = Some f \<and> url h = Some (fullUrl ri f))"
proof -
  from assms obtain st where "upper_or_empty (get node ''status'') = Inr st"
    by (auto simp: node_hits_def split: sum.splits)
  with assms show ?thesis
    using output_hits_url [of h ri "nextPath path node" st "array_or_empty (get node ''output'')"]
    by (auto simp: node_hits_def Let_def snapshot_hit_def split: if_splits)
qed

text \<open>
  Claim C3, as the code has it. Every hit that \<open>collectFailedRuleOutputs\<close> adds to the
  results and whose \<^verbatim>\<open>url\<close> is not \<^verbatim>\<open>null\<close> has an \<^verbatim>\<open>outputFile\<close>, and its \<^verbatim>\<open>url\<close> is
  \<^verbatim>\<open>{origin}/result/{runId}/{outputId}?[anonymousKey=<key>&]output=<outputFile>\<close> with the
  key and the file name in the \<^verbatim>\<open>application/x-www-form-urlencoded\<close> encoding of
  \<^verbatim>\<open>URLSearchParams\<close>: the \<^verbatim>\<open>anonymousKey\<close> parameter is left out when the key is the empty
  string and comes before \<^verbatim>\<open>output\<close> otherwise. The encoding leaves a text of letters,
  digits and \<^verbatim>\<open>* - . _\<close> as it is, so such a key and such a file name appear verbatim.
\<close>

theorem hit_url_form:
  "(collectFailedRuleOutputs node ri results path opts = Inr out \<longrightarrow>
      (\<exists>new. out = results @ new
         \<and> (\<forall>h\<in>set new. \<forall>u. url h = Some u \<longrightarrow>
               (\<exists>f. outputFile h = Some f
                  \<and> u = origin ri @ ''/result/'' @ template_str (runId ri) @ ''/''
                          @ template_str (outputId ri) @ ''?''
                          @ (if anonymousKey ri = [] then []
                             else ''anonymousKey='' @ urlencode (anonymousKey ri) @ ''&'')
                          @ ''output='' @ urlencode f))))
   \<and> ((\<forall>c\<in>set s. form_unreserved c) \<longrightarrow> urlencode s = s)"
proof (intro conjI impI)
  assume c: "collectFailedRuleOutputs node ri results path opts = Inr out"
  let ?Q = "\<lambda>ri (opts :: opts) h. url h = None \<or> (\<exists>f. outputFile h = Some f \<and> url h = Some (fullUrl ri f))"
  have "\<exists>new. out = results @ new \<and> (\<forall>h\<in>set new. ?Q ri opts h)"
  proof (rule collect_extends(1) [where Q = ?Q, OF _ c])
    fix node ri path opts hits
    assume "node_hits node ri path opts = Inr hits"
    then show "\<forall>h\<in>set hits. ?Q ri opts h"
      using node_hits_url by blast
  qed
  then obtain new where n: "out = results @ new" and q: "\<forall>h\<in>set new. ?Q ri opts h"
    by blast
  have "\<forall>h\<in>set new. \<forall>u. url h = Some u \<longrightarrow>
               (\<exists>f. outputFile h = Some f
                  \<and> u = origin ri @ ''/result/'' @ template_str (runId ri) @ ''/''
                          @ template_str (outputId ri) @ ''?''
                          @ (if anonymousKey ri = [] then []
                             else ''anonymousKey='' @ urlencode (anonymousKey ri) @ ''&'')
                          @ ''output='' @ urlencode f)"
  proof (intro ballI allI impI)
    fix h u
    assume "h \<in> set new" "url h = Some u"
    with q obtain f where "outputFile h = Some f" "u = fullUrl ri f" by auto
    then show "\<exists>f. outputFile h = Some f
                  \<and> u = origin ri @ ''/result/'' @ template_str (runId ri) @ ''/''
                          @ template_str (outputId ri) @ ''?''
                          @ (if anonymousKey ri = [] then []
                             else ''anonymousKey='' @ urlencode (anonymousKey ri) @ ''&'')
                          @ ''output='' @ urlencode f"
      using fullUrl_form [of ri f] by simp
  qed
  with n show "\<exists>new. out = results @ new
         \<and> (\<forall>h\<in>set new. \<forall>u. url h = Some u \<longrightarrow>
               (\<exists>f. outputFile h = Some f
                  \<and> u = origin ri @ ''/result/'' @ template_str (runId ri) @ ''/''
                          @ template_str (outputId ri) @ ''?''
                          @ (if anonymousKey ri = [] then []
                             else ''anonymousKey='' @ urlencode (anonymousKey ri) @ ''&'')
                          @ ''output='' @ urlencode f))"
    by blast
next
  assume "\<forall>c\<in>set s. form_unreserved c"
  then show "urlencode s = s" by (rule urlencode_unreserved)
qed

text \<open>A violated rule with the evidence file \<^verbatim>\<open>out.json\<close> and the key \<^verbatim>\<open>key1\<close>.\<close>

theorem hit_url_form_witness:
  "collectFailedRuleOutputs (rule_node ''r'' ''VIOLATED'' [JStr ''out.json''] []) example_run [] []
     default_opts
   = Inr [\<lparr>ruleName = ''r'', status = ''VIOLATED'', outputFile = Some ''out.json'',
           url = Some ''https://prover.certora.com/result/111/aaa?anonymousKey=key1&output=out.json'',
           nodeSnapshot = None\<rparr>]
   \<and> urlencode ''key1'' = ''key1'' \<and> urlencode ''out.json'' = ''out.json''"
proof -
  let ?h = "\<lparr>ruleName = ''r'', status = ''VIOLATED'', outputFile = Some ''out.json'',
            url = Some (fullUrl example_run ''out.json''), nodeSnapshot = None\<rparr>"
  have ev: "collectFailedRuleOutputs (rule_node ''r'' ''VIOLATED'' [JStr ''out.json''] [])
              example_run [] [] default_opts = Inr [?h]"
    by code_simp
  have k: "\<forall>c\<in>set ''key1''. form_unreserved c" and o: "\<forall>c\<in>set ''out.json''. form_unreserved c"
    by code_simp+
  note T = hit_url_form [of "rule_node ''r'' ''VIOLATED'' [JStr ''out.json''] []" example_run "[]" "[]"
      default_opts "[?h]"]
  from T ev have "\<forall>u. url ?h = Some u \<longrightarrow>
      (\<exists>f. outputFile ?h = Some f
         \<and> u = origin example_run @ ''/result/'' @ template_str (runId example_run) @ ''/''
                 @ template_str (outputId example_run) @ ''?''
                 @ (if anonymousKey example_run = [] then []
                    else ''anonymousKey='' @ urlencode (anonymousKey example_run) @ ''&'')
                 @ ''output='' @ urlencode f)"
    by auto
  then have u: "fullUrl example_run ''out.json''
      = origin example_run @ ''/result/'' @ template_str (runId example_run) @ ''/''
          @ template_str (outputId example_run) @ ''?''
          @ (if anonymousKey example_run = [] then []
             else ''anonymousKey='' @ urlencode (anonymousKey example_run) @ ''&'')
          @ ''output='' @ urlencode ''out.json''"
    by simp
  from hit_url_form [of _ _ _ _ _ _ "''key1''"] k have k': "urlencode ''key1'' = ''key1''"
    by blast
  from hit_url_form [of _ _ _ _ _ _ "''out.json''"] o have o': "urlencode ''out.json'' = ''out.json''"
    by blast
  from ev u k' o' show ?thesis
    by (simp add: example_run_def template_str_def)
qed

text \<open>
  The evidence file \<^verbatim>\<open>treeView/out.json\<close>, with no key: the slash of the file name is
  written \<^verbatim>\<open>%2F\<close> in the URL.
\<close>

theorem hit_url_form_counterexample:
  "collectFailedRuleOutputs (rule_node ''r'' ''VIOLATED'' [JStr ''treeView/out.json''] [])
     (example_run\<lparr>anonymousKey := []\<rparr>) [] [] default_opts
   = Inr [\<lparr>ruleName = ''r'', status = ''VIOLATED'', outputFile = Some ''treeView/out.json'',
           url = Some ''https://prover.certora.com/result/111/aaa?output=treeView%2Fout.json'',
           nodeSnapshot = None\<rparr>]
   \<and> ''https://prover.certora.com/result/111/aaa?output=treeView%2Fout.json''
       \<noteq> ''https://prover.certora.com/result/111/aaa?output=treeView/out.json''"
  by code_simp



















section \<open>Properties of the MetadataSummarizer\<close>

lemma foldl_add_sum_list:
  "foldl (\<lambda>s kv. s + g (snd kv)) (a::nat) kvs = a + sum_list (map (\<lambda>kv. g (snd kv)) kvs)"
  by (induction kvs arbitrary: a) auto

lemma failCount_JObj:
  "failCount (JObj kvs) =
     sum_list (map (\<lambda>kv. array_length (snd kv)) (filter (\<lambda>kv. fst kv \<noteq> ''SUCCESS'') kvs))"
  by (simp add: failCount_def entries_def foldl_add_sum_list case_prod_unfold)

lemma example_rules_summary:
  "parseJobMetadata (JObj [(''rules'', example_rules)]) =
     Inr (Some \<lparr>jobStatus = JNull, proverTime = JNull, contractName = JNull, specFile = JNull,
                solcVersion = JNull, proverVersion = JNull, ruleSanity = JNull,
                rulesSummary = Some \<lparr>passed = 1, failed = 2, total = 3\<rparr>\<rparr>)"
  by (simp add: example_rules_def parseJobMetadata_def count_rules_def count_entry_def
      entries_def failCount_def array_length_def get_prop_def nullish_or_def)

text \<open>
  Claim C4. In the rule counting of \<open>parseJobMetadata\<close> over a keyed \<^verbatim>\<open>rules\<close> mapping, an
  entry whose value is a string is counted as passed exactly when the string is
  \<^verbatim>\<open>"SUCCESS"\<close>, and as failed otherwise; an entry whose value is an object is counted as
  passed exactly when the lengths of the arrays under its keys other than \<^verbatim>\<open>"SUCCESS"\<close> add
  up to 0, and as failed otherwise, so that an object with no entries at all is counted as
  passed. For \<^verbatim>\<open>{"a":"SUCCESS","b":{"SUCCESS":[1],"VIOLATED":[2,3]},"c":"VIOLATED"}\<close> the
  summary is 1 passed, 2 failed, 3 in total.
\<close>

theorem rule_counting_keyed:
  "count_entry (JStr s) (p, f) = Inr (if s = ''SUCCESS'' then (p + 1, f) else (p, f + 1))
   \<and> count_entry (JObj kvs) (p, f) =
       Inr (if sum_list (map (\<lambda>kv. array_length (snd kv))
                  (filter (\<lambda>kv. fst kv \<noteq> ''SUCCESS'') kvs)) = 0
            then (p + 1, f) else (p, f + 1))
   \<and> count_entry (JObj []) (p, f) = Inr (p + 1, f)
   \<and> (\<exists>m. parseJobMetadata (JObj [(''rules'', example_rules)]) = Inr (Some m)
          \<and> rulesSummary m = Some \<lparr>passed = 1, failed = 2, total = 3\<rparr>)"
proof -
  have str: "count_entry (JStr s) (p, f) = Inr (if s = ''SUCCESS'' then (p + 1, f) else (p, f + 1))"
    by (simp add: count_entry_def)
  have obj: "count_entry (JObj kvs) (p, f) =
       Inr (if sum_list (map (\<lambda>kv. array_length (snd kv))
                  (filter (\<lambda>kv. fst kv \<noteq> ''SUCCESS'') kvs)) = 0
            then (p + 1, f) else (p, f + 1))"
    by (simp add: count_entry_def get_prop_def failCount_JObj del: sum_list_eq_0_iff)
  have none: "count_entry (JObj []) (p, f) = Inr (p + 1, f)"
    by (simp add: count_entry_def get_prop_def failCount_JObj)
  from str obj none example_rules_summary show ?thesis by simp
qed

text \<open>The counting at a failed string entry, a failed object entry and a passed one.\<close>

theorem rule_counting_keyed_witness:
  "count_entry (JStr ''VIOLATED'') (1, 0) = Inr (1, 1)
   \<and> count_entry (JObj [(''SUCCESS'', JArr [JNum 1]), (''VIOLATED'', JArr [JNum 2, JNum 3])]) (1, 0)
       = Inr (1, 1)
   \<and> count_entry (JObj [(''SUCCESS'', JArr [JNum 1])]) (0, 0) = Inr (1, 0)"
  using rule_counting_keyed [of "''VIOLATED''" 1 0 "[(''SUCCESS'', JArr [JNum 1]), (''VIOLATED'', JArr [JNum 2, JNum 3])]"]
    rule_counting_keyed [of "''SUCCESS''" 0 0 "[(''SUCCESS'', JArr [JNum 1])]"]
  by (simp add: array_length_def)

section \<open>Properties of the ProgressTreeReader\<close>

text \<open>
  Claim C5. \<open>getProgressRoots\<close> returns the empty sequence for \<^verbatim>\<open>null\<close> and for
  \<^verbatim>\<open>undefined\<close>; and for a document \<open>d\<close> that is a parsed value (not itself a string) and
  a string \<open>s\<close> that \<^verbatim>\<open>JSON.parse\<close> decodes to \<open>d\<close>, it returns the same roots for \<open>s\<close> as
  for \<open>d\<close>. A JSON text is never empty.
\<close>

theorem getProgressRoots_encoding:
  "getProgressRoots P JNull = [] \<and> getProgressRoots P JUndef = []
   \<and> (P s = Some d \<and> s \<noteq> [] \<and> \<not> is_string d \<longrightarrow>
        getProgressRoots P (JStr s) = getProgressRoots P d)"
proof -
  have "getProgressRoots P (JStr s) = getProgressRoots P d"
    if "P s = Some d" "s \<noteq> []" "\<not> is_string d"
  proof -
    from that(3) have pd: "parseMaybeJson P d = d"
      by (cases d) (simp_all add: parseMaybeJson_def)
    from that(1) have ps: "parseMaybeJson P (JStr s) = d"
      by (simp add: parseMaybeJson_def)
    show ?thesis
    proof (cases "truthy d")
      case True
      with that(2) show ?thesis by (simp add: getProgressRoots_def ps pd)
    next
      case False
      then have "get d k = JUndef" for k by (cases d) simp_all
      moreover from False have "\<not> isArray d" by (cases d) simp_all
      ultimately show ?thesis using False that(2)
        by (simp add: getProgressRoots_def ps)
    qed
  qed
  then show ?thesis by (simp add: getProgressRoots_def)
qed

text \<open>The array \<^verbatim>\<open>[7]\<close>, parsed and as the text \<^verbatim>\<open>[7]\<close>.\<close>

theorem getProgressRoots_encoding_witness:
  "JSON_parse_example ''[7]'' = Some (JArr [JNum 7]) \<and> ''[7]'' \<noteq> [] \<and> \<not> is_string (JArr [JNum 7])
   \<and> getProgressRoots JSON_parse_example (JStr ''[7]'') = [JNum 7]
   \<and> getProgressRoots JSON_parse_example (JArr [JNum 7]) = [JNum 7]"
  using getProgressRoots_encoding [of JSON_parse_example "''[7]''" "JArr [JNum 7]"]
  by (simp add: JSON_parse_example_def getProgressRoots_def parseMaybeJson_def arrayify_def)

text \<open>
  Claim C10. When the document has a \<^verbatim>\<open>verificationProgress\<close> field whose parsed value has
  no (truthy) \<^verbatim>\<open>rules\<close> field, is not a sequence and has no (truthy) \<^verbatim>\<open>children\<close> field,
  \<open>getProgressRoots\<close> does not stop with the empty sequence: the result is what the probes
  of the outer document give, its \<^verbatim>\<open>rules\<close> field first, then the document itself when it
  is a sequence, then its \<^verbatim>\<open>children\<close> field, and the empty sequence only after all of them.
\<close>

theorem getProgressRoots_falls_through:
  assumes "truthy doc"
    and "pj = parseMaybeJson P doc"
    and "\<not> nullish (get pj ''verificationProgress'')"
    and "vp = parseMaybeJson P (get pj ''verificationProgress'')"
    and "\<not> truthy (get vp ''rules'')" "\<not> isArray vp" "\<not> truthy (get vp ''children'')"
  shows "getProgressRoots P doc =
           (if truthy (get pj ''rules'') then arrayify (get pj ''rules'')
            else if isArray pj then arrayify pj
            else if truthy (get pj ''children'') then arrayify (get pj ''children'')
            else [])"
proof -
  from assms(3) obtain kvs where obj: "pj = JObj kvs" by (cases pj) simp_all
  then have "truthy pj" by simp
  with assms show ?thesis
    by (simp add: getProgressRoots_def Let_def)
qed

text \<open>A wrapper with an unrecognised \<^verbatim>\<open>verificationProgress\<close> beside a \<^verbatim>\<open>rules\<close> array.\<close>

theorem getProgressRoots_falls_through_witness:
  "getProgressRoots (\<lambda>s. None)
     (JObj [(''verificationProgress'', JObj [(''note'', JNum 1)]),
            (''rules'', JArr [JObj [(''name'', JStr ''r1'')]])])
   = [JObj [(''name'', JStr ''r1'')]]"
  using getProgressRoots_falls_through [of
      "JObj [(''verificationProgress'', JObj [(''note'', JNum 1)]), (''rules'', JArr [JObj [(''name'', JStr ''r1'')]])]"
      "JObj [(''verificationProgress'', JObj [(''note'', JNum 1)]), (''rules'', JArr [JObj [(''name'', JStr ''r1'')]])]"
      "\<lambda>s. None" "JObj [(''note'', JNum 1)]"]
  by (simp add: parseMaybeJson_def arrayify_def)

section \<open>Properties of the TranscriptAnswerExtractor\<close>





lemma filter_keep_all: "\<not> list_ex P xs \<Longrightarrow> filter (\<lambda>l. \<not> P l) xs = xs"
  by (induction xs) auto




























text \<open>The segment of a marker.\<close>

lemma find_back_lower: "- 1 \<le> find_back P ls n"
  by (induction n) auto

















section \<open>Inputs that raise\<close>

text \<open>
  Claim C9 says that no operation but the URL parsing raises. \<open>parseJobMetadata\<close> raises
  a \<^verbatim>\<open>TypeError\<close> on \<^verbatim>\<open>{"rules": {"r": null}}\<close>, since \<^verbatim>\<open>typeof null\<close> is \<^verbatim>\<open>'object'\<close> and
  \<^verbatim>\<open>val.SUCCESS\<close> reads a property of \<^verbatim>\<open>null\<close>; it also raises on a \<^verbatim>\<open>rules\<close> sequence with a
  \<^verbatim>\<open>null\<close> element or a numeric \<^verbatim>\<open>status\<close>, and the walker raises on a node whose
  \<^verbatim>\<open>status\<close> is a number.
\<close>

theorem null_rule_entry_raises:
  "parseJobMetadata (JObj [(''rules'', JObj [(''r'', JNull)])]) = Inl TypeError
   \<and> parseJobMetadata (JObj [(''rules'', JArr [JNull])]) = Inl TypeError
   \<and> parseJobMetadata (JObj [(''rules'', JArr [JObj [(''status'', JNum 5)]])]) = Inl TypeError
   \<and> collectFailedRuleOutputs (JObj [(''name'', JStr ''r''), (''status'', JNum 5)]) example_run [] []
         default_opts = Inl TypeError"
  by code_simp

text \<open>The first of these inputs ends in an error.\<close>

theorem null_rule_entry_raises_witness:
  "\<exists>e. parseJobMetadata (JObj [(''rules'', JObj [(''r'', JNull)])]) = Inl e"
  using null_rule_entry_raises by blast

end
